theory Spec2Isabelle
  imports Main "HOL-Library.Word" "HOL-Library.Multiset"
begin

unbundle bit_operations_syntax

section \<open>Bytes and the base hash\<close>

text \<open>
  A Go \<^verbatim>\<open>[]byte\<close> is a list of 8-bit words. The base hash (\<^verbatim>\<open>BaseHasherFunc\<close>, a
  constructor of \<^verbatim>\<open>hash.Hash\<close> values) is a parameter of the pool: every instance it
  constructs computes the same function \<open>H\<close> from the bytes written since the last
  \<^verbatim>\<open>Reset\<close> to the digest, so the model carries \<open>H\<close> and the digest size
  \<^verbatim>\<open>hasher().Size()\<close>.
\<close>

type_synonym byte = "8 word"
type_synonym bytes = "byte list"

text \<open>\<^verbatim>\<open>doSum(h, b, data...)\<close>: reset, write every slice, append the digest to \<open>b\<close>.\<close>

definition doSum :: "(bytes \<Rightarrow> bytes) \<Rightarrow> bytes \<Rightarrow> bytes list \<Rightarrow> bytes" where
  "doSum H b dat = b @ H (concat dat)"


text \<open>\<^verbatim>\<open>copy(dst, src)\<close>: overwrites the first \<open>min (len dst) (len src)\<close> bytes of \<open>dst\<close>.\<close>

definition copy_bytes :: "bytes \<Rightarrow> bytes \<Rightarrow> bytes" where
  "copy_bytes dst src = take (length dst) (src @ drop (length src) dst)"



section \<open>The BMT hasher (bmt.go)\<close>

subsection \<open>Trees and the tree pool\<close>

text \<open>
  A \<^verbatim>\<open>*node\<close> is an address: \<^verbatim>\<open>newTree\<close> allocates the nodes level by level, and
  the \<open>i\<close>-th node of level \<open>l\<close> gets the address \<open>(l, i)\<close>; the root is the only
  node of level \<open>depth - 1\<close>, the leaves are level 0. \<^verbatim>\<open>state\<close> is the \<^verbatim>\<open>int32\<close>
  toggle counter (it is incremented at most twice per node and chunk; the model
  counts in \<open>nat\<close>). The \<^verbatim>\<open>hasher\<close> field of a node is an instance of the base hash
  and is not stored.
\<close>

type_synonym addr = "nat \<times> nat"

record node =
  n_isLeft :: bool
  n_parent :: "addr option"
  n_state :: nat
  n_left :: "bytes option"
  n_right :: "bytes option"

text \<open>
  \<^verbatim>\<open>result\<close> is an unbuffered channel: \<open>Some s\<close> is a value offered by a sender
  that \<^verbatim>\<open>Sum\<close> has not yet taken.
\<close>

record tree =
  t_nodes :: "addr \<Rightarrow> node"
  t_leaves :: "addr list"
  t_cursor :: nat
  t_offset :: nat
  t_section :: bytes
  t_result :: "bytes option"
  t_span :: "bytes option"

text \<open>\<^verbatim>\<open>c\<close> is the buffered channel of free trees, oldest first.\<close>

record TreePool =
  p_c :: "tree list"
  p_hasher :: "bytes \<Rightarrow> bytes"
  SegmentSize :: nat
  SegmentCount :: nat
  Capacity :: nat
  Depth :: nat
  Size :: nat
  p_count :: nat
  zerohashes :: "bytes list"

text \<open>
  \<^verbatim>\<open>calculateDepthFor\<close>: \<open>c\<close> starts at 2 and doubles while it is below \<open>n\<close>. The
  loop variable is positive; the equation for 0 is never reached from 2.
\<close>

function (sequential) depthLoop :: "nat \<Rightarrow> nat \<Rightarrow> nat \<Rightarrow> nat" where
  "depthLoop 0 n d = d"
| "depthLoop c n d = (if c < n then depthLoop (c * 2) n (d + 1) else d)"
  by pat_completeness auto
termination
  by (relation "measure (\<lambda>(c, n, d). n - c)") auto

definition calculateDepthFor :: "nat \<Rightarrow> nat" where
  "calculateDepthFor n = depthLoop 2 n 0 + 1"

text \<open>The loop of \<^verbatim>\<open>NewTreePool\<close> that fills \<^verbatim>\<open>zerohashes[1..depth]\<close>.\<close>

fun zerohashLoop :: "(bytes \<Rightarrow> bytes) \<Rightarrow> nat \<Rightarrow> bytes \<Rightarrow> bytes list" where
  "zerohashLoop H 0 zeros = []"
| "zerohashLoop H (Suc k) zeros =
     (let zeros' = doSum H [] [zeros, zeros] in zeros' # zerohashLoop H k zeros')"

definition NewTreePool :: "(bytes \<Rightarrow> bytes) \<Rightarrow> nat \<Rightarrow> nat \<Rightarrow> nat \<Rightarrow> TreePool" where
  "NewTreePool H hashSize segmentCount capacity =
     (let depth = calculateDepthFor segmentCount;
          segmentSize = hashSize;
          zeros = replicate segmentSize 0
      in \<lparr> p_c = [],
           p_hasher = H,
           SegmentSize = segmentSize,
           SegmentCount = segmentCount,
           Capacity = capacity,
           Depth = depth,
           Size = segmentCount * segmentSize,
           p_count = 0,
           zerohashes = zeros # zerohashLoop H depth zeros \<rparr>)"

definition newNode :: "nat \<Rightarrow> addr option \<Rightarrow> node" where
  "newNode index par =
     \<lparr> n_isLeft = (index mod 2 = 0), n_parent = par, n_state = 0,
       n_left = None, n_right = None \<rparr>"

text \<open>
  \<^verbatim>\<open>newTree\<close>: the root is \<^verbatim>\<open>newNode(0, nil)\<close>; the \<open>i\<close>-th node of a lower level
  is \<^verbatim>\<open>newNode(i, prevlevel[i/2])\<close>; level \<open>l\<close> has \<open>2 ^ (depth - 1 - l)\<close> nodes and the
  leaves are the nodes of the last level built.
\<close>

definition newTree :: "nat \<Rightarrow> nat \<Rightarrow> tree" where
  "newTree segmentSize depth =
     \<lparr> t_nodes = (\<lambda>(level, i).
           newNode i (if level + 1 < depth then Some (level + 1, i div 2) else None)),
       t_leaves = map (\<lambda>i. (0, i)) [0..<2 ^ (depth - 1)],
       t_cursor = 0,
       t_offset = 0,
       t_section = replicate (2 * segmentSize) 0,
       t_result = None,
       t_span = None \<rparr>"

text \<open>
  \<^verbatim>\<open>reserve\<close>: \<open>None\<close> when the call blocks on the empty channel (every tree of a
  full pool is checked out).
\<close>

definition reserve :: "TreePool \<Rightarrow> (tree \<times> TreePool) option" where
  "reserve p =
     (if p_count p = Capacity p then
        (case p_c p of [] \<Rightarrow> None | t # ts \<Rightarrow> Some (t, p\<lparr>p_c := ts\<rparr>))
      else
        (case p_c p of
           t # ts \<Rightarrow> Some (t, p\<lparr>p_c := ts\<rparr>)
         | [] \<Rightarrow> Some (newTree (SegmentSize p) (Depth p), p\<lparr>p_count := p_count p + 1\<rparr>)))"


subsection \<open>The hasher and its goroutines\<close>

text \<open>
  A goroutine started by the hasher, at the points where it can be scheduled:
  before \<^verbatim>\<open>WriteSection\<close> starts, and at the head of the loop of \<^verbatim>\<open>writeNode\<close>
  (\<open>n\<close>, \<open>isLeft\<close>, \<open>s\<close>) or of \<^verbatim>\<open>writeFinalNode\<close> (\<open>level\<close>, \<open>n\<close>, \<open>isLeft\<close>, \<open>s\<close>).
  One loop iteration writes a child slot of one node and toggles that node
  atomically; the slots are read by the second toggler only.
\<close>

datatype routine =
    GoWriteSection nat bytes bool bool
  | InWriteNode "addr option" bool bytes
  | InWriteFinalNode nat "addr option" bool "bytes option"

text \<open>
  \<open>h_routines\<close> is not a field of the Go struct: it is the set of goroutines the
  hasher has started with \<^verbatim>\<open>go\<close> and that have not returned.
\<close>

record Hasher =
  h_pool :: TreePool
  h_bmt :: "tree option"
  h_size :: nat
  h_cursor :: nat
  h_routines :: "routine list"


definition getTree :: "Hasher \<Rightarrow> (tree \<times> Hasher) option" where
  "getTree h =
     (case h_bmt h of
        Some t \<Rightarrow> Some (t, h)
      | None \<Rightarrow>
          (case reserve (h_pool h) of
             None \<Rightarrow> None
           | Some (t, p) \<Rightarrow> Some (t, h\<lparr>h_pool := p, h_bmt := Some t\<rparr>)))"




definition SetSpanBytes :: "Hasher \<Rightarrow> bytes \<Rightarrow> Hasher option" where
  "SetSpanBytes h b =
     (case getTree h of
        None \<Rightarrow> None
      | Some (t, h') \<Rightarrow>
          Some (h'\<lparr>h_bmt := Some (t\<lparr>t_span := Some (copy_bytes (replicate 8 0) b)\<rparr>)\<rparr>))"















section \<open>The hasher store (hasherstore.go)\<close>

subsection \<open>Errors, constants, collaborators\<close>

text \<open>
  Go errors are values; a runtime panic is an outcome of its own. \<open>Collaborator\<close> is an
  error value made by a collaborator (the encryption, the local store, the
  request context, \<^verbatim>\<open>RemoteGet\<close>).
\<close>

datatype error =
    InvalidChunkData nat
  | InvalidReferenceLength nat nat nat
  | ErrNoSuitablePeer
  | Collaborator string
  | PanicSliceBounds
  | PanicDivideByZero
  | PanicCloseOfClosedChannel

text \<open>
  Modelled from the spec: the constants \<^verbatim>\<open>chunk.DefaultSize\<close> (\<open>C = 4096\<close>),
  \<^verbatim>\<open>encryption.KeyLength\<close> (\<open>K = 32\<close>) and \<^verbatim>\<open>AddressLength\<close> (\<open>S = 32\<close>), whose
  declarations are not among the sources.
\<close>

definition DefaultSize :: nat where
  "DefaultSize = 4096"

definition KeyLength :: nat where
  "KeyLength = 32"

definition AddressLength :: nat where
  "AddressLength = 32"

definition noOfStorageWorkers :: nat where
  "noOfStorageWorkers = 150"

text \<open>
  Modelled from the spec: \<^verbatim>\<open>ChunkData.Size\<close>, which is not among the sources; the
  span is the little-endian \<^verbatim>\<open>uint64\<close> in the first 8 bytes.
\<close>

definition Uint64 :: "bytes \<Rightarrow> 64 word" where
  "Uint64 b = foldr (\<lambda>x acc. ucast x + 256 * acc) (take 8 b) 0"

text \<open>
  \<^verbatim>\<open>encryption.New(key, padding, initCtr, hashFunc).Encrypt(data)\<close> is a collaborator
  whose code is not among the sources: the functions below take it as the
  parameter \<open>enc\<close>.
\<close>

type_synonym encryption = "bytes \<Rightarrow> nat \<Rightarrow> 32 word \<Rightarrow> bytes \<Rightarrow> error + bytes"

record Chunk =
  c_address :: bytes
  c_data :: bytes

text \<open>A goroutine of \<^verbatim>\<open>storeChunk\<close>: inside \<^verbatim>\<open>h.store.Put\<close>, or offering its error on \<^verbatim>\<open>errC\<close>.\<close>

datatype task = Storing Chunk | Sending "error option"

text \<open>
  \<open>hashFunc\<close> maps the span and the data to the address (\<^verbatim>\<open>Reset\<close>,
  \<^verbatim>\<open>SetSpanBytes\<close>, \<^verbatim>\<open>Write\<close>, \<^verbatim>\<open>Sum(nil)\<close> of a fresh \<^verbatim>\<open>SwarmHash\<close>). \<open>workers\<close> is
  the buffered channel of capacity \<open>noOfStorageWorkers\<close>; \<open>doWait\<close> tells whether the
  \<^verbatim>\<open>sync.Once\<close> has fired, that is, whether \<^verbatim>\<open>startWait\<close> runs; \<open>hs_tasks\<close> are the
  goroutines \<^verbatim>\<open>storeChunk\<close> has started; the two tag counters are \<^verbatim>\<open>StateStored\<close> and
  \<^verbatim>\<open>StateSeen\<close> of \<^verbatim>\<open>h.tag\<close>.
\<close>

record hasherStore =
  nrChunks :: nat
  toEncrypt :: bool
  hashFunc :: "bytes \<Rightarrow> bytes \<Rightarrow> bytes"
  hashSize :: nat
  refSize :: nat
  workers :: "Chunk list"
  doWait :: bool
  hs_tasks :: "task list"
  tag_stored :: nat
  tag_seen :: nat

definition NewHasherStore :: "(bytes \<Rightarrow> bytes \<Rightarrow> bytes) \<Rightarrow> nat \<Rightarrow> bool \<Rightarrow> hasherStore" where
  "NewHasherStore hf hsize encrypt =
     \<lparr> nrChunks = 0,
       toEncrypt = encrypt,
       hashFunc = hf,
       hashSize = hsize,
       refSize = (if encrypt then hsize + KeyLength else hsize),
       workers = [],
       doWait = False,
       hs_tasks = [],
       tag_stored = 0,
       tag_seen = 0 \<rparr>"

subsection \<open>References, encryption and decryption of chunk data\<close>

text \<open>\<^verbatim>\<open>parseReference\<close>: the address and the key (\<open>None\<close> is the nil key).\<close>

definition parseReference :: "bytes \<Rightarrow> nat \<Rightarrow> error + (bytes \<times> bytes option)" where
  "parseReference ref hsize =
     (let encryptedRefLength = hsize + KeyLength in
      if length ref = AddressLength then Inr (ref, None)
      else if length ref = encryptedRefLength then
        (let encKeyIdx = length ref - KeyLength
         in Inr (take encKeyIdx ref, Some (drop encKeyIdx ref)))
      else Inl (InvalidReferenceLength hsize encryptedRefLength (length ref)))"

definition newSpanEncryption :: "encryption \<Rightarrow> hasherStore \<Rightarrow> bytes \<Rightarrow> bytes \<Rightarrow> error + bytes" where
  "newSpanEncryption enc h key dat =
     (if refSize h = 0 then Inl PanicDivideByZero
      else enc key 0 (of_nat (DefaultSize div refSize h)) dat)"

definition newDataEncryption :: "encryption \<Rightarrow> hasherStore \<Rightarrow> bytes \<Rightarrow> bytes \<Rightarrow> error + bytes" where
  "newDataEncryption enc h key dat = enc key DefaultSize 0 dat"

text \<open>
  \<^verbatim>\<open>encrypt\<close>; the key drawn by \<^verbatim>\<open>GenerateRandomKey\<close> is the argument \<open>key\<close>.
\<close>

definition encrypt :: "encryption \<Rightarrow> hasherStore \<Rightarrow> bytes \<Rightarrow> bytes \<Rightarrow> error + (bytes \<times> bytes \<times> bytes)" where
  "encrypt enc h key chunkData =
     (if length chunkData < 8 then Inl PanicSliceBounds
      else
        (case newSpanEncryption enc h key (take 8 chunkData) of
           Inl err \<Rightarrow> Inl err
         | Inr encryptedSpan \<Rightarrow>
             (case newDataEncryption enc h key (drop 8 chunkData) of
                Inl err \<Rightarrow> Inl err
              | Inr encryptedData \<Rightarrow> Inr (key, encryptedSpan, encryptedData))))"

definition decrypt :: "encryption \<Rightarrow> hasherStore \<Rightarrow> bytes \<Rightarrow> bytes \<Rightarrow> error + (bytes \<times> bytes)" where
  "decrypt enc h chunkData key =
     (if length chunkData < 8 then Inl PanicSliceBounds
      else
        (case newSpanEncryption enc h key (take 8 chunkData) of
           Inl err \<Rightarrow> Inl err
         | Inr encryptedSpan \<Rightarrow>
             (case newDataEncryption enc h key (drop 8 chunkData) of
                Inl err \<Rightarrow> Inl err
              | Inr encryptedData \<Rightarrow> Inr (encryptedSpan, encryptedData))))"

definition encryptChunkData ::
  "encryption \<Rightarrow> hasherStore \<Rightarrow> bytes \<Rightarrow> bytes \<Rightarrow> error + (bytes \<times> bytes)" where
  "encryptChunkData enc h key chunkData =
     (if length chunkData < 8 then Inl (InvalidChunkData (length chunkData))
      else
        (case encrypt enc h key chunkData of
           Inl err \<Rightarrow> Inl err
         | Inr (key', encryptedSpan, encryptedData) \<Rightarrow>
             (let c = replicate (length encryptedSpan + length encryptedData) (0 :: byte)
              in if length c < 8 then Inl PanicSliceBounds
                 else Inr (copy_bytes (take 8 c) encryptedSpan @
                           copy_bytes (drop 8 c) encryptedData, key'))))"

text \<open>
  The loop of \<^verbatim>\<open>decryptChunkData\<close> on the \<^verbatim>\<open>uint64\<close> \<open>length\<close>; it does not return when
  it does not terminate.
\<close>

partial_function (option) lengthLoop :: "64 word \<Rightarrow> 64 word \<Rightarrow> 64 word option" where
  "lengthLoop rsize len =
     (if len > 4096 then lengthLoop rsize (((len + (4096 - 1)) div 4096) * rsize)
      else Some len)"

definition decryptChunkData ::
  "encryption \<Rightarrow> hasherStore \<Rightarrow> bytes \<Rightarrow> bytes \<Rightarrow> (error + bytes) option" where
  "decryptChunkData enc h chunkData encryptionKey =
     (if length chunkData < 8 then Some (Inl (InvalidChunkData (length chunkData)))
      else
        (case decrypt enc h chunkData encryptionKey of
           Inl err \<Rightarrow> Some (Inl err)
         | Inr (decryptedSpan, decryptedData) \<Rightarrow>
             if length decryptedSpan < 8 then Some (Inl PanicSliceBounds)
             else
               (case lengthLoop (of_nat (refSize h)) (Uint64 decryptedSpan) of
                  None \<Rightarrow> None
                | Some len \<Rightarrow>
                    (let c = replicate (unat len + 8) (0 :: byte)
                     in if length decryptedData < unat len then Some (Inl PanicSliceBounds)
                        else Some (Inr (copy_bytes (take 8 c) decryptedSpan @
                                        copy_bytes (drop 8 c) (take (unat len) decryptedData)))))))"

subsection \<open>Put, the store tasks and the wait\<close>

definition createHash :: "hasherStore \<Rightarrow> bytes \<Rightarrow> error + bytes" where
  "createHash h chunkData =
     (if length chunkData < 8 then Inl PanicSliceBounds
      else Inr (hashFunc h (take 8 chunkData) (drop 8 chunkData)))"

definition createChunk :: "hasherStore \<Rightarrow> bytes \<Rightarrow> error + Chunk" where
  "createChunk h chunkData =
     (case createHash h chunkData of
        Inl err \<Rightarrow> Inl err
      | Inr hash \<Rightarrow> Inr \<lparr> c_address = hash, c_data = chunkData \<rparr>)"

text \<open>
  \<^verbatim>\<open>storeChunk\<close>: the send on \<^verbatim>\<open>workers\<close> blocks (\<open>None\<close>) while the channel is
  full; then the counter is incremented and the goroutine is started.
\<close>

definition storeChunk :: "hasherStore \<Rightarrow> Chunk \<Rightarrow> hasherStore option" where
  "storeChunk h ch =
     (if length (workers h) < noOfStorageWorkers then
        Some (h\<lparr>workers := workers h @ [ch],
                nrChunks := nrChunks h + 1,
                hs_tasks := hs_tasks h @ [Storing ch]\<rparr>)
      else None)"

text \<open>
  \<^verbatim>\<open>Put\<close>; \<open>key\<close> is the key \<^verbatim>\<open>GenerateRandomKey\<close> draws when the store encrypts.
  The nil key of the unencrypted case appends nothing to the address.
\<close>

definition Put :: "encryption \<Rightarrow> hasherStore \<Rightarrow> bytes \<Rightarrow> bytes \<Rightarrow> (error + (bytes \<times> hasherStore)) option" where
  "Put enc h key chunkData =
     (case (if toEncrypt h then encryptChunkData enc h key chunkData
            else Inr (chunkData, [])) of
        Inl err \<Rightarrow> Some (Inl err)
      | Inr (c, encryptionKey) \<Rightarrow>
          (case createChunk h c of
             Inl err \<Rightarrow> Some (Inl err)
           | Inr chunk \<Rightarrow>
               (case storeChunk h chunk of
                  None \<Rightarrow> None
                | Some h' \<Rightarrow> Some (Inr (c_address chunk @ encryptionKey, h'\<lparr>doWait := True\<rparr>)))))"




text \<open>
  The steps of the store pipeline: a \<^verbatim>\<open>Put\<close> call; \<^verbatim>\<open>h.store.Put\<close> returning
  \<open>(seen, err)\<close> in the \<open>i\<close>-th task, which then increments the tag; the \<open>i\<close>-th
  task's error being taken from \<^verbatim>\<open>errC\<close> (or \<^verbatim>\<open>quitC\<close> being closed), after which its
  deferred receive frees a slot of \<open>workers\<close>.
\<close>

datatype hs_action = ActPut bytes bytes | ActStored nat "bool list" "error option" | ActSent nat

definition hs_step :: "encryption \<Rightarrow> hasherStore \<Rightarrow> hs_action \<Rightarrow> hasherStore option" where
  "hs_step enc h a =
     (case a of
        ActPut key chunkData \<Rightarrow>
          (case Put enc h key chunkData of
             None \<Rightarrow> None
           | Some (Inl err) \<Rightarrow> Some h
           | Some (Inr (ref, h')) \<Rightarrow> Some h')
      | ActStored i seen err \<Rightarrow>
          (if i < length (hs_tasks h) \<and> (err \<noteq> None \<or> seen \<noteq> []) then
             (case hs_tasks h ! i of
                Storing ch \<Rightarrow>
                  Some (h\<lparr>hs_tasks := (hs_tasks h)[i := Sending err],
                          tag_stored := tag_stored h + 1,
                          tag_seen := (if err = None \<and> hd seen then tag_seen h + 1
                                       else tag_seen h)\<rparr>)
              | Sending e \<Rightarrow> None)
           else None)
      | ActSent i \<Rightarrow>
          (if i < length (hs_tasks h) then
             (case hs_tasks h ! i of
                Storing ch \<Rightarrow> None
              | Sending e \<Rightarrow>
                  Some (h\<lparr>hs_tasks := take i (hs_tasks h) @ drop (Suc i) (hs_tasks h),
                          workers := tl (workers h)\<rparr>))
           else None))"

fun hs_run :: "encryption \<Rightarrow> hasherStore \<Rightarrow> hs_action list \<Rightarrow> hasherStore option" where
  "hs_run enc h [] = Some h"
| "hs_run enc h (a # as) =
     (case hs_step enc h a of None \<Rightarrow> None | Some h' \<Rightarrow> hs_run enc h' as)"

fun is_Storing :: "task \<Rightarrow> bool" where
  "is_Storing (Storing ch) = True"
| "is_Storing (Sending e) = False"

text \<open>The local-store writes in flight: the tasks inside \<^verbatim>\<open>h.store.Put\<close>.\<close>

definition in_flight :: "hasherStore \<Rightarrow> nat" where
  "in_flight h = length (filter is_Storing (hs_tasks h))"

text \<open>
  Modelled from the spec: the \<^verbatim>\<open>Encrypt\<close> operation of the encryption package, whose
  code is not among the sources. It is an XOR with a keystream that depends on
  the key and the two parameters of \<^verbatim>\<open>encryption.New\<close> alone, followed by padding
  (\<open>pad\<close>, any bytes) up to the padding length.
\<close>

definition xor_stream :: "(nat \<Rightarrow> byte) \<Rightarrow> bytes \<Rightarrow> bytes" where
  "xor_stream ks dat = map (\<lambda>(i, x). x XOR ks i) (zip [0..<length dat] dat)"

definition Encrypt ::
  "(bytes \<Rightarrow> nat \<Rightarrow> 32 word \<Rightarrow> nat \<Rightarrow> byte) \<Rightarrow> bytes \<Rightarrow> encryption" where
  "Encrypt stream pad key padding initCtr dat =
     (if 0 < padding \<and> padding < length dat then Inl (Collaborator ''data longer than padding'')
      else Inr (xor_stream (stream key padding initCtr) dat @ take (padding - length dat) pad))"

section \<open>The network store (netstore.go)\<close>

text \<open>
  The \<^verbatim>\<open>Delivered\<close> channel carries no values: it is open or closed, and closing a
  closed channel panics. The \<^verbatim>\<open>sync.Once\<close> is new, running its function, or done.
\<close>

datatype chan_state = Open | Closed

datatype once_state = OnceNew | OnceRunning | OnceDone

record Fetcher =
  Delivered :: chan_state
  f_Chunk :: "Chunk option"
  f_once :: once_state
  CreatedBy :: string
  RequestedBySyncer :: bool

definition NewFetcher :: Fetcher where
  "NewFetcher = \<lparr> Delivered = Open, f_Chunk = None, f_once = OnceNew,
                  CreatedBy = [], RequestedBySyncer = False \<rparr>"




text \<open>\<^verbatim>\<open>SafeClose\<close> of a caller that runs alone (under \<^verbatim>\<open>putMu\<close>).\<close>

definition SafeClose :: "Fetcher \<Rightarrow> Chunk \<Rightarrow> Fetcher" where
  "SafeClose fi ch =
     (if f_once fi = OnceNew then fi\<lparr>f_Chunk := Some ch, Delivered := Closed, f_once := OnceDone\<rparr>
      else fi)"

text \<open>
  The fetchers cache, keyed by the address (\<^verbatim>\<open>ch.Address().String()\<close> is the
  address in hexadecimal); the eviction of the LRU cache is not modelled.
\<close>

record NetStore =
  fetchers :: "bytes \<Rightarrow> Fetcher option"

text \<open>The first loop of \<^verbatim>\<open>NetStore.Put\<close>: every chunk's fetcher is closed through \<^verbatim>\<open>SafeClose\<close>.\<close>

fun Put_deliver :: "NetStore \<Rightarrow> Chunk list \<Rightarrow> NetStore" where
  "Put_deliver n [] = n"
| "Put_deliver n (ch # chs) =
     (case fetchers n (c_address ch) of
        Some fi \<Rightarrow> Put_deliver (n\<lparr>fetchers := (fetchers n)(c_address ch \<mapsto> SafeClose fi ch)\<rparr>) chs
      | None \<Rightarrow> Put_deliver n chs)"

text \<open>The last loop of \<^verbatim>\<open>NetStore.Put\<close>: the fetchers of the stored chunks are removed.\<close>

fun Put_remove :: "NetStore \<Rightarrow> Chunk list \<Rightarrow> NetStore" where
  "Put_remove n [] = n"
| "Put_remove n (ch # chs) =
     (case fetchers n (c_address ch) of
        Some fi \<Rightarrow> Put_remove (n\<lparr>fetchers := (fetchers n)(c_address ch := None)\<rparr>) chs
      | None \<Rightarrow> Put_remove n chs)"

text \<open>\<^verbatim>\<open>NetStore.Put\<close>; \<open>stored\<close> is what \<^verbatim>\<open>n.Store.Put\<close> returns for the chunks.\<close>

definition NetStore_Put :: "NetStore \<Rightarrow> (error + bool list) \<Rightarrow> Chunk list \<Rightarrow> (error + bool list) \<times> NetStore" where
  "NetStore_Put n stored chs =
     (let n1 = Put_deliver n chs in
      case stored of
        Inl err \<Rightarrow> (Inl err, n1)
      | Inr exist \<Rightarrow> (Inr exist, Put_remove n1 chs))"

text \<open>\<^verbatim>\<open>GetOrCreateFetcher\<close>: the fetcher's key, \<open>loaded\<close>, \<open>ok\<close>, and the store.\<close>

definition GetOrCreateFetcher :: "NetStore \<Rightarrow> bytes \<Rightarrow> string \<Rightarrow> Fetcher \<times> bool \<times> bool \<times> NetStore" where
  "GetOrCreateFetcher n ref interestedParty =
     (let (f, loaded, n1) =
            (case fetchers n ref of
               Some v \<Rightarrow> (v, True, n)
             | None \<Rightarrow>
                 (let f = NewFetcher\<lparr>CreatedBy := interestedParty\<rparr>
                  in (f, False, n\<lparr>fetchers := (fetchers n)(ref \<mapsto> f)\<rparr>)))
      in if CreatedBy f \<noteq> interestedParty \<and> \<not> RequestedBySyncer f then
           (let f' = f\<lparr>RequestedBySyncer := True\<rparr>
            in (f', False, True, n1\<lparr>fetchers := (fetchers n1)(ref \<mapsto> f')\<rparr>))
         else (f, loaded, True, n1))"

text \<open>
  A request: the address and the peers to skip (the timestamps are left out).
  \<^verbatim>\<open>RemoteGet\<close> is a collaborator: a function from the request to an error or the
  peer it chose.
\<close>

record Request =
  Addr :: bytes
  PeersToSkip :: "string list"

text \<open>
  What the \<^verbatim>\<open>select\<close> of \<^verbatim>\<open>RemoteFetch\<close> takes: \<^verbatim>\<open>fi.Delivered\<close> is closed (with the
  \<^verbatim>\<open>fi.Chunk\<close> read then), the search timeout fires, or the context is done.
\<close>

datatype fetch_case = SelDelivered "Chunk option" | SelSearchTimeout | SelCtxDone error

text \<open>
  \<^verbatim>\<open>RemoteFetch\<close> on the sequence of cases its \<^verbatim>\<open>select\<close> takes; \<open>None\<close> while the
  loop is still running.
\<close>

fun RemoteFetch ::
  "(Request \<Rightarrow> error + string) \<Rightarrow> Request \<Rightarrow> fetch_case list
     \<Rightarrow> ((error + Chunk option) \<times> Request) option" where
  "RemoteFetch RemoteGet req [] =
     (case RemoteGet req of
        Inl err \<Rightarrow> Some (Inl ErrNoSuitablePeer, req)
      | Inr currentPeer \<Rightarrow> None)"
| "RemoteFetch RemoteGet req (sel # sels) =
     (case RemoteGet req of
        Inl err \<Rightarrow> Some (Inl ErrNoSuitablePeer, req)
      | Inr currentPeer \<Rightarrow>
          (case sel of
             SelDelivered ch \<Rightarrow>
               Some (Inr ch, req\<lparr>PeersToSkip := currentPeer # PeersToSkip req\<rparr>)
           | SelSearchTimeout \<Rightarrow>
               RemoteFetch RemoteGet (req\<lparr>PeersToSkip := currentPeer # PeersToSkip req\<rparr>) sels
           | SelCtxDone err \<Rightarrow>
               Some (Inl err, req\<lparr>PeersToSkip := currentPeer # PeersToSkip req\<rparr>)))"

text \<open>
  \<^verbatim>\<open>NetStore.Get\<close> of one caller (the single-flight group then runs the function in
  the caller); \<open>local\<close> is what \<^verbatim>\<open>n.Store.Get\<close> returns.
\<close>

definition NetStore_Get ::
  "NetStore \<Rightarrow> (error + Chunk) \<Rightarrow> (Request \<Rightarrow> error + string) \<Rightarrow> Request \<Rightarrow> fetch_case list
     \<Rightarrow> ((error + Chunk option) \<times> NetStore) option" where
  "NetStore_Get n local RemoteGet req sels =
     (case local of
        Inr ch \<Rightarrow> Some (Inr (Some ch), n)
      | Inl lerr \<Rightarrow>
          (let (fi, loaded, ok, n1) = GetOrCreateFetcher n (Addr req) ''request'' in
           if ok then
             (case RemoteFetch RemoteGet req sels of
                None \<Rightarrow> None
              | Some (Inl err, req') \<Rightarrow> Some (Inl err, n1)
              | Some (Inr ch, req') \<Rightarrow> Some (Inr ch, n1))
           else Some (Inr None, n1)))"

section \<open>Notions used in the statements\<close>


text \<open>
  The iterative rule as the specification words it, on natural numbers: while
  \<open>length > C\<close>, \<open>length\<close> becomes \<open>\<lceil>length / C\<rceil> * refSize\<close>.
\<close>

partial_function (option) ruleLength :: "nat \<Rightarrow> nat \<Rightarrow> nat option" where
  "ruleLength rsize len =
     (if len > 4096 then ruleLength rsize (((len + 4095) div 4096) * rsize) else Some len)"


section \<open>Notions used for the hasher's goroutines\<close>

subsection \<open>The address of a payload\<close>


text \<open>
  The \<open>i\<close>-th section (two segments) of a payload as \<^verbatim>\<open>Write\<close> cuts it: the bytes
  from \<open>2 * S * i\<close> on, copied into a section of zero bytes.
\<close>

definition section_of :: "bytes \<Rightarrow> nat \<Rightarrow> nat \<Rightarrow> bytes" where
  "section_of b S i = copy_bytes (replicate (2 * S) 0) (drop (i * (2 * S)) b)"



subsection \<open>The geometry of one run\<close>

text \<open>
  One run of the hasher is described by the base hash, the segment size, the depth
  of the tree, the index \<open>g_k\<close> of the final section and the sections themselves.
  \<open>val g h j\<close> is the digest of the \<open>j\<close>-th subtree over \<open>2 ^ h\<close> sections, \<open>kp g h\<close>
  the index of the subtree of that height that holds the final section, and
  \<open>par g h j\<close> the node into which the digest of subtree \<open>(h, j)\<close> is written (none
  at the root).
\<close>

record geom =
  g_H :: "bytes \<Rightarrow> bytes"
  g_S :: nat
  g_D :: nat
  g_k :: nat
  g_sec :: "nat \<Rightarrow> bytes"


definition kp :: "geom \<Rightarrow> nat \<Rightarrow> nat" where
  "kp g h = g_k g div 2 ^ h"

definition par :: "geom \<Rightarrow> nat \<Rightarrow> nat \<Rightarrow> addr option" where
  "par g h j = (if h + 1 < g_D g then Some (h + 1, j div 2) else None)"


definition geom_of :: "(bytes \<Rightarrow> bytes) \<Rightarrow> nat \<Rightarrow> nat \<Rightarrow> bytes \<Rightarrow> geom" where
  "geom_of H S D b =
     \<lparr> g_H = H, g_S = S, g_D = D, g_k = (length b - 1) div (2 * S), g_sec = section_of b S \<rparr>"

subsection \<open>Goroutines and the slots of the tree\<close>

text \<open>
  An edge \<open>(h, j)\<close> stands for the slot that receives the digest of subtree
  \<open>(h, j)\<close>: the left or right field of its parent node, or the result channel for
  the root. \<open>r_edge\<close> is the edge a goroutine is about to write, \<open>r_some\<close> tells
  whether it carries a digest (a final goroutine may carry nil), \<open>r_final\<close> whether
  it is the goroutine of the final section, and \<open>wp\<close> that its parameters are those
  the geometry gives for its edge.
\<close>

fun r_edge :: "geom \<Rightarrow> routine \<Rightarrow> nat \<times> nat" where
  "r_edge g (GoWriteSection i x dbl fin) = (0, i)"
| "r_edge g (InWriteNode (Some (l, q)) isL s) = (l - 1, 2 * q + (if isL then 0 else 1))"
| "r_edge g (InWriteNode None isL s) = (g_D g - 1, 0)"
| "r_edge g (InWriteFinalNode lev (Some (l, q)) isL s) = (l - 1, 2 * q + (if isL then 0 else 1))"
| "r_edge g (InWriteFinalNode lev None isL s) = (g_D g - 1, 0)"

fun r_some :: "routine \<Rightarrow> bool" where
  "r_some (GoWriteSection i x dbl fin) = True"
| "r_some (InWriteNode n isL s) = True"
| "r_some (InWriteFinalNode lev n isL s) = (s \<noteq> None)"





definition sib :: "nat \<times> nat \<Rightarrow> nat \<times> nat" where
  "sib e = (case e of (h, j) \<Rightarrow> (h, if even j then j + 1 else j - 1))"

subsection \<open>The invariant of the interleavings\<close>

text \<open>
  \<open>cnt\<close> counts the goroutines that carry a digest for an edge, \<open>wr\<close> is 1 for a
  written slot, and \<open>cmpl\<close> holds for an edge whose subtree has both child slots
  written (or is a section). The invariant: every goroutine has the parameters of
  its edge; on every edge up to the final path there is exactly one of a carrying
  goroutine and a written slot as soon as the edge is complete, and none before;
  a written slot holds the digest of its subtree; the toggle counter of a node is
  the number of its written child slots, or still 0 where the final goroutine
  filled both slots without a toggle; there is at most one final goroutine, and
  the zero-subtree slots of the final path are written exactly below it.
\<close>

definition cnt :: "geom \<Rightarrow> routine multiset \<Rightarrow> nat \<times> nat \<Rightarrow> nat" where
  "cnt g M e = size (filter_mset (\<lambda>r. r_some r \<and> r_edge g r = e) M)"

definition wr :: "(nat \<times> nat \<Rightarrow> bytes option) \<Rightarrow> nat \<times> nat \<Rightarrow> nat" where
  "wr S e = (if S e = None then 0 else 1)"

definition cmpl :: "(nat \<times> nat \<Rightarrow> bytes option) \<Rightarrow> nat \<times> nat \<Rightarrow> bool" where
  "cmpl S e = (case e of (h, j) \<Rightarrow> h = 0 \<or> (S (h - 1, 2 * j) \<noteq> None \<and> S (h - 1, 2 * j + 1) \<noteq> None))"













section \<open>Properties of the BMT hasher\<close>

subsection \<open>The zero-subtree digests of the pool\<close>





subsection \<open>Sum over no input\<close>




subsection \<open>The interleavings of the goroutines: counting\<close>


lemma kp_0 [simp]: "kp g 0 = g_k g"
  by (simp add: kp_def)




lemma cnt_add [simp]:
  "cnt g (add_mset r M) e = cnt g M e + (if r_some r \<and> r_edge g r = e then 1 else 0)"
  by (simp add: cnt_def)

lemma wr_upd [simp]: "wr (S(e := Some v)) e' = (if e' = e then 1 else wr S e')"
  by (simp add: wr_def)

lemma cmpl_0 [simp]: "cmpl S (0, j)"
  by (simp add: cmpl_def)





lemma sib_cases:
  fixes j :: nat
  shows "(even j \<longrightarrow> 2 * (j div 2) = j) \<and> (odd j \<longrightarrow> 2 * (j div 2) + 1 = j)"
  by (auto elim: evenE oddE)










lemma sib_neq [simp]: "sib (h, j) \<noteq> (h, j)"
  by (auto simp: sib_def elim: oddE)



















subsection \<open>The steps of writeNode, writeFinalNode and WriteSection\<close>



























subsection \<open>Write on a new hasher\<close>

lemma length_sec [simp]: "length (section_of b S i) = 2 * S"
  by (simp add: section_of_def copy_bytes_def)









lemma geom_of_simps [simp]:
  "g_H (geom_of H S D b) = H" "g_S (geom_of H S D b) = S" "g_D (geom_of H S D b) = D"
  "g_k (geom_of H S D b) = (length b - 1) div (2 * S)" "g_sec (geom_of H S D b) = section_of b S"
  by (simp_all add: geom_of_def)









lemma newTree_fields [simp]:
  "t_offset (newTree S D) = 0" "t_cursor (newTree S D) = 0" "t_result (newTree S D) = None"
  "t_section (newTree S D) = replicate (2 * S) 0" "t_span (newTree S D) = None"
  by (simp_all add: newTree_def)

lemma NewTreePool_fields [simp]:
  "p_c (NewTreePool H S n cap) = []" "p_hasher (NewTreePool H S n cap) = H"
  "SegmentSize (NewTreePool H S n cap) = S" "SegmentCount (NewTreePool H S n cap) = n"
  "Capacity (NewTreePool H S n cap) = cap" "Depth (NewTreePool H S n cap) = calculateDepthFor n"
  "Size (NewTreePool H S n cap) = n * S" "p_count (NewTreePool H S n cap) = 0"
  by (simp_all add: NewTreePool_def Let_def)





subsection \<open>Zero padding\<close>









section \<open>Properties of the hasher store\<close>

subsection \<open>Slices and the keystream\<close>

lemma copy_bytes_take8:
  "8 \<le> length src \<Longrightarrow> length dst = 8 \<Longrightarrow> copy_bytes dst src = take 8 src"
  by (simp add: copy_bytes_def)

lemma copy_bytes_exact: "length src = length dst \<Longrightarrow> copy_bytes dst src = src"
  by (simp add: copy_bytes_def)

lemma length_xor_stream [simp]: "length (xor_stream ks d) = length d"
  by (simp add: xor_stream_def)

lemma nth_xor_stream: "i < length d \<Longrightarrow> xor_stream ks d ! i = d ! i XOR ks i"
  by (simp add: xor_stream_def)

lemma xor_stream_involution: "xor_stream ks (xor_stream ks d) = d"
  by (rule nth_equalityI) (simp_all add: nth_xor_stream xor.assoc)

lemma take_xor_stream: "take n (xor_stream ks d) = xor_stream ks (take n d)"
  by (rule nth_equalityI) (simp_all add: nth_xor_stream)

lemma xor_stream_append_take: "take (length a) (xor_stream ks (a @ b)) = xor_stream ks a"
  by (simp add: take_xor_stream)

lemma xor_stream_zero: "xor_stream (\<lambda>i. 0) d = d"
  by (simp add: xor_stream_def case_prod_unfold)

lemma lengthLoop_small: "len \<le> 4096 \<Longrightarrow> lengthLoop r len = Some len"
  by (subst lengthLoop.simps) (auto dest: leD)

lemma encryptChunkData_key: "encryptChunkData enc h key cd = Inr (c, k) \<Longrightarrow> k = key"
  by (auto simp: encryptChunkData_def encrypt_def Let_def split: if_splits sum.splits)

lemma decryptChunkData_long:
  assumes "8 \<le> length cd"
  shows "decryptChunkData enc h cd key =
           (case decrypt enc h cd key of
              Inl err \<Rightarrow> Some (Inl err)
            | Inr (sp, dat) \<Rightarrow>
                if length sp < 8 then Some (Inl PanicSliceBounds)
                else (case lengthLoop (of_nat (refSize h)) (Uint64 sp) of
                        None \<Rightarrow> None
                      | Some len \<Rightarrow>
                          if length dat < unat len then Some (Inl PanicSliceBounds)
                          else Some (Inr (take 8 sp @ take (unat len) dat))))"
  using assms
  by (auto simp: decryptChunkData_def Let_def copy_bytes_take8 copy_bytes_exact min_def
      split: sum.splits option.splits prod.splits)

subsection \<open>Reference lengths\<close>

text \<open>
  Claim C3. With the hash size \<open>S = 32\<close>, \<^verbatim>\<open>parseReference\<close> accepts the lengths 32
  (the whole reference is the address, no key) and 64 (the first 32 bytes are the
  address, the last 32 the key) and rejects every other length with the
  invalid-reference-length error. A reference that \<^verbatim>\<open>Put\<close> returns has length 32
  when the store does not encrypt and 64 (address, then key) when it does, and
  \<^verbatim>\<open>parseReference\<close> splits it back into that address and key. The hash is assumed
  to produce \<open>hashSize\<close> bytes and the key generator \<open>KeyLength\<close> bytes.
\<close>

theorem reference_lengths:
  assumes "hashSize h = AddressLength"
    and "\<And>sp d. length (hashFunc h sp d) = hashSize h"
    and "length key = KeyLength"
  shows "parseReference ref (hashSize h) =
           (if length ref = 32 then Inr (ref, None)
            else if length ref = 64 then Inr (take 32 ref, Some (drop 32 ref))
            else Inl (InvalidReferenceLength 32 64 (length ref))) \<and>
         (\<forall>r h'. Put enc h key cd = Some (Inr (r, h')) \<longrightarrow>
            length r = (if toEncrypt h then 64 else 32) \<and>
            parseReference r (hashSize h) =
              Inr (take 32 r, if toEncrypt h then Some key else None))"
proof (intro conjI allI impI)
  show "parseReference ref (hashSize h) =
           (if length ref = 32 then Inr (ref, None)
            else if length ref = 64 then Inr (take 32 ref, Some (drop 32 ref))
            else Inl (InvalidReferenceLength 32 64 (length ref)))"
    using assms(1) by (simp add: parseReference_def AddressLength_def KeyLength_def Let_def)
next
  fix r h'
  assume p: "Put enc h key cd = Some (Inr (r, h'))"
  show "length r = (if toEncrypt h then 64 else 32)"
    using p assms
    by (auto simp: Put_def createChunk_def createHash_def storeChunk_def AddressLength_def
        KeyLength_def dest!: encryptChunkData_key
        split: if_splits sum.splits option.splits prod.splits)
  show "parseReference r (hashSize h) = Inr (take 32 r, if toEncrypt h then Some key else None)"
    using p assms
    by (auto simp: Put_def createChunk_def createHash_def storeChunk_def AddressLength_def
        KeyLength_def parseReference_def Let_def
        dest!: encryptChunkData_key split: if_splits sum.splits option.splits prod.splits)
qed

text \<open>The theorem at an encrypting store: the reference of an 11-byte payload.\<close>

theorem reference_lengths_witness:
  "hashSize (NewHasherStore (\<lambda>sp d. replicate 32 7) 32 True) = AddressLength \<and>
   length (replicate 32 (1 :: byte)) = KeyLength \<and>
   (\<exists>r h'. Put (Encrypt (\<lambda>k p c i. 0) (replicate 4096 0))
              (NewHasherStore (\<lambda>sp d. replicate 32 7) 32 True) (replicate 32 1)
              [3, 0, 0, 0, 0, 0, 0, 0, 1, 2, 3] = Some (Inr (r, h')) \<and>
            length r = 64 \<and>
            parseReference r 32 = Inr (take 32 r, Some (replicate 32 1)))"
proof -
  let ?h = "NewHasherStore (\<lambda>sp d. replicate 32 7) 32 True"
  let ?enc = "Encrypt (\<lambda>k p c i. 0) (replicate 4096 0)"
  have a: "hashSize ?h = AddressLength" by (simp add: NewHasherStore_def AddressLength_def)
  have b: "length (hashFunc ?h sp d) = hashSize ?h" for sp d by (simp add: NewHasherStore_def)
  have c: "length (replicate 32 (1 :: byte)) = KeyLength" by (simp add: KeyLength_def)
  have "\<exists>r h'. Put ?enc ?h (replicate 32 1) [3, 0, 0, 0, 0, 0, 0, 0, 1, 2, 3] = Some (Inr (r, h'))"
    by (simp add: Put_def encryptChunkData_def encrypt_def newSpanEncryption_def
        newDataEncryption_def Encrypt_def xor_stream_zero NewHasherStore_def DefaultSize_def
        KeyLength_def Let_def createChunk_def createHash_def storeChunk_def
        noOfStorageWorkers_def copy_bytes_def)
  then obtain r h' where
    p: "Put ?enc ?h (replicate 32 1) [3, 0, 0, 0, 0, 0, 0, 0, 1, 2, 3] = Some (Inr (r, h'))"
    by blast
  have e: "toEncrypt ?h" "hashSize ?h = 32" by (simp_all add: NewHasherStore_def)
  from reference_lengths[of ?h "replicate 32 1" "[]" ?enc "[3, 0, 0, 0, 0, 0, 0, 0, 1, 2, 3]",
      OF a b c] p e
  have "length r = 64 \<and> parseReference r 32 = Inr (take 32 r, Some (replicate 32 1))"
    by simp
  with a c p show ?thesis by blast
qed

subsection \<open>Errors of encryption and decryption\<close>

text \<open>
  Claim C4, as the code has it. Encrypting and decrypting a payload shorter than 8
  bytes fail with the invalid-chunk-data error. For a payload of 8 bytes or more
  \<^verbatim>\<open>decryptChunkData\<close> makes no check of its own against the span: it returns the
  error of the encryption if there is one, and otherwise the 8-byte span and the
  first \<open>length\<close> bytes of the decrypted data, where \<open>length\<close> is computed from the
  decrypted span; only when the decrypted data is shorter than \<open>length\<close> the slice
  expression is out of range, which is a panic and no error value.
\<close>

theorem chunk_data_length_errors:
  "(length cd < 8 \<longrightarrow>
      encryptChunkData enc h key cd = Inl (InvalidChunkData (length cd)) \<and>
      decryptChunkData enc h cd key = Some (Inl (InvalidChunkData (length cd)))) \<and>
   (8 \<le> length cd \<longrightarrow>
      decryptChunkData enc h cd key =
        (case decrypt enc h cd key of
           Inl err \<Rightarrow> Some (Inl err)
         | Inr (sp, dat) \<Rightarrow>
             if length sp < 8 then Some (Inl PanicSliceBounds)
             else (case lengthLoop (of_nat (refSize h)) (Uint64 sp) of
                     None \<Rightarrow> None
                   | Some len \<Rightarrow>
                       if length dat < unat len then Some (Inl PanicSliceBounds)
                       else Some (Inr (take 8 sp @ take (unat len) dat)))))"
  using decryptChunkData_long[of cd enc h key]
  by (simp add: encryptChunkData_def decryptChunkData_def)

text \<open>The theorem at a 3-byte payload and at a 10-byte payload whose span is 2.\<close>

theorem chunk_data_length_errors_witness:
  "length [1, 2, 3 :: byte] < 8 \<and>
   encryptChunkData (Encrypt (\<lambda>k p c i. 0) (replicate 4096 0))
     (NewHasherStore (\<lambda>sp d. []) 32 True) (replicate 32 0) [1, 2, 3]
     = Inl (InvalidChunkData 3) \<and>
   decryptChunkData (Encrypt (\<lambda>k p c i. 0) (replicate 4096 0))
     (NewHasherStore (\<lambda>sp d. []) 32 True) [1, 2, 3] (replicate 32 0)
     = Some (Inl (InvalidChunkData 3)) \<and>
   8 \<le> length [2, 0, 0, 0, 0, 0, 0, 0, 65, 66 :: byte] \<and>
   decryptChunkData (Encrypt (\<lambda>k p c i. 0) (replicate 4096 0))
     (NewHasherStore (\<lambda>sp d. []) 32 True) [2, 0, 0, 0, 0, 0, 0, 0, 65, 66] (replicate 32 0)
     = Some (Inr [2, 0, 0, 0, 0, 0, 0, 0, 65, 66])"
  using chunk_data_length_errors[of "[1, 2, 3]" "Encrypt (\<lambda>k p c i. 0) (replicate 4096 0)"
      "NewHasherStore (\<lambda>sp d. []) 32 True" "replicate 32 0"]
    chunk_data_length_errors[of "[2, 0, 0, 0, 0, 0, 0, 0, 65, 66]"
      "Encrypt (\<lambda>k p c i. 0) (replicate 4096 0)"
      "NewHasherStore (\<lambda>sp d. []) 32 True" "replicate 32 0"]
  by (simp add: decrypt_def newSpanEncryption_def newDataEncryption_def Encrypt_def
      xor_stream_zero NewHasherStore_def DefaultSize_def KeyLength_def Uint64_def
      lengthLoop_small)

text \<open>
  Claim C4 as stated fails: a payload whose span says 100 bytes and whose data
  part has 10 bytes is decrypted without any error; the result carries 100 data
  bytes, the last 90 of them taken from the padding.
\<close>

theorem decrypt_short_data_no_error:
  "decryptChunkData (Encrypt (\<lambda>k p c i. 0) (replicate 4096 0))
     (NewHasherStore (\<lambda>sp d. []) 32 True)
     ([100, 0, 0, 0, 0, 0, 0, 0] @ replicate 10 65) (replicate 32 0)
   = Some (Inr ([100, 0, 0, 0, 0, 0, 0, 0] @ replicate 10 65 @ replicate 90 0))"
  apply (subst decryptChunkData_long)
   apply simp
  apply (simp add: decrypt_def newSpanEncryption_def newDataEncryption_def Encrypt_def
      xor_stream_zero NewHasherStore_def DefaultSize_def KeyLength_def Uint64_def
      lengthLoop_small)
  done

subsection \<open>The length of the meaningful data\<close>

lemma lengthLoop_step:
  fixes v r :: nat
  assumes "v \<le> 2 ^ 64 - 4096" "r \<le> 2048" "4096 < v"
  shows "((of_nat v :: 64 word) + (4096 - 1)) div 4096 * of_nat r
           = of_nat ((v + 4095) div 4096 * r)"
    and "(v + 4095) div 4096 * r < v"
proof -
  have v: "v + 4095 < 2 ^ 64" using assms(1) by simp
  have "(of_nat v :: 64 word) + (4096 - 1) = of_nat (v + 4095)" by simp
  moreover have "(of_nat (v + 4095) :: 64 word) div 4096 = of_nat ((v + 4095) div 4096)"
  proof -
    have u: "unat (of_nat (v + 4095) :: 64 word) = v + 4095"
      by (rule of_nat_inverse[OF refl]) (use v in simp)
    show ?thesis
      by (subst word_arith_nat_div) (simp only: u, simp)
  qed
  ultimately show "((of_nat v :: 64 word) + (4096 - 1)) div 4096 * of_nat r
                     = of_nat ((v + 4095) div 4096 * r)"
    by simp
  have "(v + 4095) div 4096 * r \<le> (v + 4095) div 4096 * 2048"
    using assms(2) by simp
  also have "\<dots> < v" using assms(3) by simp
  finally show "(v + 4095) div 4096 * r < v" .
qed

lemma of_nat_gt_4096: "v < 2 ^ 64 \<Longrightarrow> ((4096 :: 64 word) < of_nat v) = (4096 < v)"
  by (simp add: word_less_nat_alt unat_of_nat)

text \<open>
  Below the wrap-around of the \<^verbatim>\<open>uint64\<close> addition the loop of the code terminates
  and computes what the specification's rule computes.
\<close>

lemma lengthLoop_follows_rule:
  "v \<le> 2 ^ 64 - 4096 \<Longrightarrow> r \<le> 2048 \<Longrightarrow>
     (\<exists>n. ruleLength r v = Some n \<and> n \<le> v \<and>
          lengthLoop (of_nat r) (of_nat v) = Some (of_nat n))"
proof (induction v rule: less_induct)
  case (less v)
  have vlt: "v < 2 ^ 64" using less.prems(1) by simp
  show ?case
  proof (cases "4096 < v")
    case False
    then have "ruleLength r v = Some v" by (subst ruleLength.simps) simp
    moreover have "lengthLoop (of_nat r) (of_nat v) = Some (of_nat v)"
      using False vlt by (subst lengthLoop.simps) (simp add: of_nat_gt_4096)
    ultimately show ?thesis by simp
  next
    case True
    let ?v' = "(v + 4095) div 4096 * r"
    note s = lengthLoop_step[OF less.prems(1) less.prems(2) True]
    have "?v' \<le> 2 ^ 64 - 4096" using s(2) less.prems(1) by simp
    from less.IH[OF s(2) this less.prems(2)] obtain n where
      n: "ruleLength r ?v' = Some n" "n \<le> ?v'"
         "lengthLoop (of_nat r) (of_nat ?v') = Some (of_nat n)"
      by blast
    have "ruleLength r v = Some n" using True n(1) by (subst ruleLength.simps) simp
    moreover have "lengthLoop (of_nat r) (of_nat v) = Some (of_nat n)"
      using True vlt n(3) s(1) by (subst lengthLoop.simps) (simp add: of_nat_gt_4096)
    moreover have "n \<le> v" using n(2) s(2) by simp
    ultimately show ?thesis by simp
  qed
qed

lemma lengthLoop_max: "lengthLoop 64 (- 1) = Some 0"
  apply (subst lengthLoop.simps)
  apply simp
  apply (subst lengthLoop.simps)
  apply simp
  done

lemma ruleLength_max: "ruleLength 64 (2 ^ 64 - 1) = Some 1024"
  apply (subst ruleLength.simps, simp)+
  done

text \<open>
  Claim C5 at the span \<open>2^64 - 1\<close> and reference size 64: the rule of the
  specification gives 1024 meaningful bytes; in the code \<open>length + 4095\<close> wraps
  around, the loop ends with length 0, and \<^verbatim>\<open>decryptChunkData\<close> returns the 8 span
  bytes alone.
\<close>

theorem decryptChunkData_span_wraps:
  "ruleLength 64 (unat (Uint64 [255, 255, 255, 255, 255, 255, 255, 255])) = Some 1024 \<and>
   lengthLoop 64 (Uint64 [255, 255, 255, 255, 255, 255, 255, 255]) = Some 0 \<and>
   decryptChunkData (Encrypt (\<lambda>k p c i. 0) (replicate 4096 0))
     (NewHasherStore (\<lambda>sp d. []) 32 True)
     ([255, 255, 255, 255, 255, 255, 255, 255] @ replicate 4096 65) (replicate 32 0)
   = Some (Inr [255, 255, 255, 255, 255, 255, 255, 255])"
proof -
  have u: "Uint64 [255, 255, 255, 255, 255, 255, 255, 255] = - 1"
    by (simp add: Uint64_def)
  have "unat (- 1 :: 64 word) = 2 ^ 64 - 1" by (simp add: unsigned_minus_1_eq_mask mask_eq_exp_minus_1)
  then have a: "ruleLength 64 (unat (Uint64 [255, 255, 255, 255, 255, 255, 255, 255])) = Some 1024"
    using ruleLength_max by (simp only: u)
  have b: "lengthLoop 64 (Uint64 [255, 255, 255, 255, 255, 255, 255, 255]) = Some 0"
    using lengthLoop_max by (simp only: u)
  have c: "decryptChunkData (Encrypt (\<lambda>k p c i. 0) (replicate 4096 0))
     (NewHasherStore (\<lambda>sp d. []) 32 True)
     ([255, 255, 255, 255, 255, 255, 255, 255] @ replicate 4096 65) (replicate 32 0)
   = Some (Inr [255, 255, 255, 255, 255, 255, 255, 255])"
    apply (subst decryptChunkData_long)
     apply simp
    apply (simp add: decrypt_def newSpanEncryption_def newDataEncryption_def Encrypt_def
        xor_stream_zero NewHasherStore_def DefaultSize_def KeyLength_def b)
    done
  from a b c show ?thesis by blast
qed

subsection \<open>Encryption followed by decryption\<close>

text \<open>
  Claim C6, on the model of \<^verbatim>\<open>Encrypt\<close> written from the specification. For every
  payload \<open>b\<close> of an 8-byte span and at most \<open>C\<close> data bytes and every key,
  decrypting the encryption of \<open>b\<close> under the same key yields the span of \<open>b\<close> and
  data whose first \<open>|b| - 8\<close> bytes are the data of \<open>b\<close>, whatever the padding of the
  two operations; when the length computed from the span is the length of the
  data, \<^verbatim>\<open>decryptChunkData\<close> returns \<open>b\<close> itself. For every encryption, \<^verbatim>\<open>decrypt\<close>
  performs the two calls that \<^verbatim>\<open>encrypt\<close> performs, with the same key and
  parameters.
\<close>

theorem encrypt_decrypt_roundtrip:
  assumes len8: "8 \<le> length b" and lenC: "length b \<le> 8 + DefaultSize"
    and rs: "refSize h \<noteq> 0"
  shows "(\<exists>c dat. encryptChunkData (Encrypt stream pad1) h key b = Inr (c, key) \<and>
            decrypt (Encrypt stream pad2) h c key = Inr (take 8 b, dat) \<and>
            take (length b - 8) dat = drop 8 b \<and>
            (\<forall>len. lengthLoop (of_nat (refSize h)) (Uint64 b) = Some len \<and>
                   unat len = length b - 8 \<longrightarrow>
               decryptChunkData (Encrypt stream pad2) h c key = Some (Inr b))) \<and>
         decrypt enc h cd key = map_sum id snd (encrypt enc h key cd)"
proof
  define ks where "ks = stream key 0 (of_nat (DefaultSize div refSize h))"
  define kd where "kd = stream key DefaultSize 0"
  define es where "es = xor_stream ks (take 8 b)"
  define ed where "ed = xor_stream kd (drop 8 b) @ take (DefaultSize - length (drop 8 b)) pad1"
  have les: "length es = 8" using len8 by (simp add: es_def)
  have led: "length ed \<le> DefaultSize" using lenC by (simp add: ed_def)
  have DS: "0 < DefaultSize" by (simp add: DefaultSize_def)
  have e1: "encrypt (Encrypt stream pad1) h key b = Inr (key, es, ed)"
    using len8 lenC rs DS
    by (simp add: encrypt_def newSpanEncryption_def newDataEncryption_def Encrypt_def
        es_def ed_def ks_def kd_def)
  have e2: "encryptChunkData (Encrypt stream pad1) h key b = Inr (es @ ed, key)"
    using len8 e1 les
    by (simp add: encryptChunkData_def Let_def copy_bytes_def)
  define dd where "dd = xor_stream kd ed @ take (DefaultSize - length ed) pad2"
  have d1: "decrypt (Encrypt stream pad2) h (es @ ed) key = Inr (take 8 b, dd)"
    using les led rs DS len8
    by (simp add: decrypt_def newSpanEncryption_def newDataEncryption_def Encrypt_def
        es_def[symmetric] ks_def[symmetric] kd_def[symmetric] dd_def)
       (simp add: es_def xor_stream_involution)
  have tk: "take (length b - 8) dd = drop 8 b"
  proof -
    have "take (length b - 8) dd = take (length (xor_stream kd (drop 8 b))) (xor_stream kd ed)"
      by (simp add: dd_def ed_def)
    also have "\<dots> = xor_stream kd (xor_stream kd (drop 8 b))"
      unfolding ed_def by (rule xor_stream_append_take)
    finally show ?thesis by (simp add: xor_stream_involution)
  qed
  have ldd: "length b - 8 \<le> length dd"
    by (simp add: dd_def ed_def)
  have u: "Uint64 (take 8 b) = Uint64 b" by (simp add: Uint64_def)
  have full: "decryptChunkData (Encrypt stream pad2) h (es @ ed) key = Some (Inr b)"
    if "lengthLoop (of_nat (refSize h)) (Uint64 b) = Some len \<and> unat len = length b - 8"
    for len
    using that les len8 d1 tk ldd u
    by (subst decryptChunkData_long) (simp_all add: not_less)
  from e2 d1 tk full
  show "\<exists>c dat. encryptChunkData (Encrypt stream pad1) h key b = Inr (c, key) \<and>
            decrypt (Encrypt stream pad2) h c key = Inr (take 8 b, dat) \<and>
            take (length b - 8) dat = drop 8 b \<and>
            (\<forall>len. lengthLoop (of_nat (refSize h)) (Uint64 b) = Some len \<and>
                   unat len = length b - 8 \<longrightarrow>
               decryptChunkData (Encrypt stream pad2) h c key = Some (Inr b))"
    by blast
  show "decrypt enc h cd key = map_sum id snd (encrypt enc h key cd)"
    by (simp add: decrypt_def encrypt_def split: sum.splits)
qed

text \<open>
  The theorem at an 11-byte payload (span 3, three data bytes), a keystream that
  depends on the position, and two different paddings.
\<close>

theorem encrypt_decrypt_roundtrip_witness:
  "8 \<le> length [3, 0, 0, 0, 0, 0, 0, 0, 1, 2, 3 :: byte] \<and>
   length [3, 0, 0, 0, 0, 0, 0, 0, 1, 2, 3 :: byte] \<le> 8 + DefaultSize \<and>
   refSize (NewHasherStore (\<lambda>sp d. []) 32 True) \<noteq> 0 \<and>
   (\<exists>c. encryptChunkData (Encrypt (\<lambda>k p c i. of_nat i) (replicate 4096 1))
           (NewHasherStore (\<lambda>sp d. []) 32 True) (replicate 32 0)
           [3, 0, 0, 0, 0, 0, 0, 0, 1, 2, 3] = Inr (c, replicate 32 0) \<and>
         decryptChunkData (Encrypt (\<lambda>k p c i. of_nat i) (replicate 4096 2))
           (NewHasherStore (\<lambda>sp d. []) 32 True) c (replicate 32 0)
           = Some (Inr [3, 0, 0, 0, 0, 0, 0, 0, 1, 2, 3]))"
proof -
  let ?b = "[3, 0, 0, 0, 0, 0, 0, 0, 1, 2, 3 :: byte]"
  let ?h = "NewHasherStore (\<lambda>sp d. []) 32 True"
  have a: "8 \<le> length ?b" by simp
  have b: "length ?b \<le> 8 + DefaultSize" by (simp add: DefaultSize_def)
  have c: "refSize ?h \<noteq> 0" by (simp add: NewHasherStore_def KeyLength_def)
  have d: "lengthLoop (of_nat (refSize ?h)) (Uint64 ?b) = Some 3 \<and> unat (3 :: 64 word) = length ?b - 8"
    by (simp add: Uint64_def lengthLoop_small)
  from encrypt_decrypt_roundtrip[of ?b ?h "\<lambda>k p c i. of_nat i" "replicate 4096 1"
      "replicate 32 0" "replicate 4096 2", OF a b c] d
  have "\<exists>c. encryptChunkData (Encrypt (\<lambda>k p c i. of_nat i) (replicate 4096 1)) ?h
               (replicate 32 0) ?b = Inr (c, replicate 32 0) \<and>
             decryptChunkData (Encrypt (\<lambda>k p c i. of_nat i) (replicate 4096 2)) ?h c
               (replicate 32 0) = Some (Inr ?b)"
    by blast
  with a b c show ?thesis by blast
qed

subsection \<open>Put, Close and Wait\<close>








subsection \<open>The worker bound\<close>

lemma hs_step_workers:
  "hs_step enc h a = Some h' \<Longrightarrow>
     length (hs_tasks h) = length (workers h) \<and> length (workers h) \<le> noOfStorageWorkers \<Longrightarrow>
     length (hs_tasks h') = length (workers h') \<and> length (workers h') \<le> noOfStorageWorkers"
  by (cases a)
     (auto simp: hs_step_def Put_def storeChunk_def split: option.splits sum.splits if_splits
        task.splits prod.splits)

lemma hs_run_workers:
  "hs_run enc h acts = Some h' \<Longrightarrow>
     length (hs_tasks h) = length (workers h) \<and> length (workers h) \<le> noOfStorageWorkers \<Longrightarrow>
     length (hs_tasks h') = length (workers h') \<and> length (workers h') \<le> noOfStorageWorkers"
proof (induction acts arbitrary: h)
  case Nil
  then show ?case by simp
next
  case (Cons a acts)
  from Cons.prems(1) obtain h1 where s: "hs_step enc h a = Some h1"
    and r: "hs_run enc h1 acts = Some h'"
    by (auto split: option.splits)
  from Cons.IH[OF r hs_step_workers[OF s Cons.prems(2)]] show ?case .
qed

text \<open>
  Claim C8. In every state the store pipeline reaches from a new store, by any
  sequence of \<^verbatim>\<open>Put\<close> calls, returns of the local store's \<^verbatim>\<open>Put\<close> and hand-overs of
  errors: the number of store tasks inside the local store's \<^verbatim>\<open>Put\<close> is at most
  150; every live task holds one slot of the \<^verbatim>\<open>workers\<close> channel, whose length never
  exceeds its capacity 150; and when all slots are taken \<^verbatim>\<open>storeChunk\<close> blocks.
\<close>

theorem worker_bound:
  assumes "hs_run enc (NewHasherStore hf hs e) acts = Some h"
  shows "in_flight h \<le> 150 \<and> noOfStorageWorkers = 150 \<and>
         length (workers h) \<le> noOfStorageWorkers \<and>
         length (hs_tasks h) = length (workers h) \<and>
         (length (workers h) = noOfStorageWorkers \<longrightarrow> storeChunk h ch = None)"
proof -
  have i: "length (hs_tasks h) = length (workers h) \<and> length (workers h) \<le> noOfStorageWorkers"
    using hs_run_workers[OF assms] by (simp add: NewHasherStore_def)
  have "in_flight h \<le> length (hs_tasks h)" by (simp add: in_flight_def)
  with i show ?thesis
    by (auto simp: storeChunk_def noOfStorageWorkers_def)
qed

text \<open>The theorem after two \<^verbatim>\<open>Put\<close>s, the first of which has been stored: one write is in flight.\<close>

theorem worker_bound_witness:
  "\<exists>h. hs_run (Encrypt (\<lambda>k p c i. 0) [])
          (NewHasherStore (\<lambda>sp d. sp) 8 False)
          [ActPut [] [1, 0, 0, 0, 0, 0, 0, 0, 65], ActPut [] [1, 0, 0, 0, 0, 0, 0, 0, 66],
           ActStored 0 [False] None] = Some h \<and>
        in_flight h = 1 \<and> in_flight h \<le> 150 \<and> length (workers h) = 2"
proof -
  let ?enc = "Encrypt (\<lambda>k p c i. 0) []"
  let ?acts = "[ActPut [] [1, 0, 0, 0, 0, 0, 0, 0, 65], ActPut [] [1, 0, 0, 0, 0, 0, 0, 0, 66],
           ActStored 0 [False] None]"
  have "\<exists>h. hs_run ?enc (NewHasherStore (\<lambda>sp d. sp) 8 False) ?acts = Some h \<and>
          in_flight h = 1 \<and> length (workers h) = 2"
    by (simp add: hs_step_def Put_def createChunk_def createHash_def storeChunk_def
        NewHasherStore_def noOfStorageWorkers_def in_flight_def)
  then obtain h where r: "hs_run ?enc (NewHasherStore (\<lambda>sp d. sp) 8 False) ?acts = Some h"
    and n: "in_flight h = 1" "length (workers h) = 2" by blast
  from worker_bound[OF r] have "in_flight h \<le> 150" by blast
  with r n show ?thesis by blast
qed

section \<open>Properties of the network store\<close>

subsection \<open>One-shot delivery\<close>





subsection \<open>Errors of the remote fetch\<close>

text \<open>
  Claim C10. When \<^verbatim>\<open>RemoteGet\<close> returns an error, \<^verbatim>\<open>RemoteFetch\<close> returns at once with
  \<^verbatim>\<open>ErrNoSuitablePeer\<close>; and the results of \<^verbatim>\<open>RemoteFetch\<close> and of \<^verbatim>\<open>Get\<close> are the same
  for a \<^verbatim>\<open>RemoteGet\<close> and for the one that differs from it only in that all its
  errors are \<^verbatim>\<open>ErrNoSuitablePeer\<close>: the caller cannot tell which error \<^verbatim>\<open>RemoteGet\<close>
  returned.
\<close>

theorem RemoteFetch_no_suitable_peer:
  "(RemoteGet req = Inl err \<longrightarrow>
      RemoteFetch RemoteGet req sels = Some (Inl ErrNoSuitablePeer, req)) \<and>
   RemoteFetch RemoteGet req sels =
     RemoteFetch (\<lambda>r. case RemoteGet r of Inl e \<Rightarrow> Inl ErrNoSuitablePeer | Inr p \<Rightarrow> Inr p)
       req sels \<and>
   NetStore_Get n local RemoteGet req sels =
     NetStore_Get n local
       (\<lambda>r. case RemoteGet r of Inl e \<Rightarrow> Inl ErrNoSuitablePeer | Inr p \<Rightarrow> Inr p) req sels"
proof -
  let ?g = "\<lambda>r. case RemoteGet r of Inl e \<Rightarrow> Inl ErrNoSuitablePeer | Inr p \<Rightarrow> Inr p"
  have a: "RemoteGet req = Inl err \<longrightarrow>
             RemoteFetch RemoteGet req sels = Some (Inl ErrNoSuitablePeer, req)"
    by (cases sels) simp_all
  have b: "RemoteFetch RemoteGet r sels = RemoteFetch ?g r sels" for r
    by (induction sels arbitrary: r) (auto split: sum.splits fetch_case.splits)
  have c: "NetStore_Get n local RemoteGet req sels = NetStore_Get n local ?g req sels"
    unfolding NetStore_Get_def b[of req] ..
  from a b c show ?thesis by blast
qed

text \<open>
  The theorem at a \<^verbatim>\<open>RemoteGet\<close> that fails with a connection error on the second
  attempt, after a search timeout.
\<close>

theorem RemoteFetch_no_suitable_peer_witness:
  "(\<lambda>r. if PeersToSkip r = [] then Inr ''peer-1'' else Inl (Collaborator ''connection refused''))
     \<lparr>Addr = [7], PeersToSkip = [''peer-1'']\<rparr> = Inl (Collaborator ''connection refused'') \<and>
   RemoteFetch
     (\<lambda>r. if PeersToSkip r = [] then Inr ''peer-1'' else Inl (Collaborator ''connection refused''))
     \<lparr>Addr = [7], PeersToSkip = [''peer-1'']\<rparr> [SelSearchTimeout]
     = Some (Inl ErrNoSuitablePeer, \<lparr>Addr = [7], PeersToSkip = [''peer-1'']\<rparr>) \<and>
   RemoteFetch
     (\<lambda>r. if PeersToSkip r = [] then Inr ''peer-1'' else Inl (Collaborator ''connection refused''))
     \<lparr>Addr = [7], PeersToSkip = []\<rparr> [SelSearchTimeout, SelSearchTimeout]
     = Some (Inl ErrNoSuitablePeer, \<lparr>Addr = [7], PeersToSkip = [''peer-1'']\<rparr>)"
  using RemoteFetch_no_suitable_peer[of
      "\<lambda>r. if PeersToSkip r = [] then Inr ''peer-1'' else Inl (Collaborator ''connection refused'')"
      "\<lparr>Addr = [7], PeersToSkip = [''peer-1'']\<rparr>" "Collaborator ''connection refused''"
      "[SelSearchTimeout]"]
  by simp

end
